theory Spec2Isabelle
  imports Complex_Main "HOL-Library.Word" "HOL-Library.Log_Nat"
begin

section \<open>Strings\<close>

text \<open>
  A JavaScript string is a sequence of UTF-16 code units. String literals of the source
  are ASCII and are written through \<open>lit\<close>.
\<close>

type_synonym js_string = "16 word list"

definition lit :: "string \<Rightarrow> js_string" where
  "lit s = map of_char s"

text \<open>
  \<open>String.prototype.split\<close> with a one-unit separator: the pieces between the
  separators, scanning from the left; the empty string gives one empty piece.
\<close>

fun split_from :: "'a \<Rightarrow> 'a list \<Rightarrow> 'a list \<Rightarrow> 'a list list" where
  "split_from sep cur [] = [rev cur]"
| "split_from sep cur (c # cs) =
     (if c = sep then rev cur # split_from sep [] cs else split_from sep (c # cur) cs)"

definition split :: "'a \<Rightarrow> 'a list \<Rightarrow> 'a list list" where
  "split sep s = split_from sep [] s"

text \<open>\<open>Array.prototype.pop\<close>: the last element, \<open>undefined\<close> on the empty array.\<close>

definition pop :: "'a list \<Rightarrow> 'a option" where
  "pop xs = (if xs = [] then None else Some (last xs))"

text \<open>
  \<open>String.prototype.toLowerCase\<close>, unit by unit. The Unicode lower-case mapping
  sends exactly the units \<open>A\<close>..\<open>Z\<close> and U+212A (KELVIN SIGN) to ASCII letters; every
  other unit is sent to itself or to a sequence with a non-ASCII unit in it. The second
  kind is left as it is here, which cannot change whether the result equals an ASCII
  literal.
\<close>

definition lower_unit :: "16 word \<Rightarrow> 16 word" where
  "lower_unit c =
     (if 0x41 \<le> c \<and> c \<le> 0x5A then c + 0x20
      else if c = 0x212A then 0x6B
      else c)"

definition toLowerCase :: "js_string \<Rightarrow> js_string" where
  "toLowerCase s = map lower_unit s"

section \<open>getMimeType\<close>

definition dot :: "16 word" where
  "dot = 0x2E"

definition getMimeType :: "js_string \<Rightarrow> js_string" where
  "getMimeType filename =
     (case map_option toLowerCase (pop (split dot filename)) of
        None \<Rightarrow> lit ''application/octet-stream''
      | Some ext \<Rightarrow>
          if ext = lit ''mp4'' then lit ''video/mp4''
          else if ext = lit ''mkv'' then lit ''video/x-matroska''
          else if ext = lit ''webm'' then lit ''video/webm''
          else if ext = lit ''mov'' then lit ''video/quicktime''
          else if ext = lit ''avi'' then lit ''video/x-msvideo''
          else lit ''application/octet-stream'')"




section \<open>Exceptions and completions\<close>

text \<open>
  A thrown value is an \<open>Error\<close> object; the handler reads only its \<open>message\<close>.
  A block of statements completes normally, by \<open>return\<close>, or by a throw.
\<close>

datatype exn = Exn (message: js_string)

datatype 'a completion = Normal 'a | Return | Throw exn

section \<open>encodeURIComponent\<close>

text \<open>
  ECMAScript \<open>Encode\<close> with the unreserved set of \<open>encodeURIComponent\<close>: letters,
  digits and \<open>- _ . ! ~ * ' ( )\<close> are kept, every other code point is written as the
  percent-escaped octets of its UTF-8 form, and an unpaired surrogate throws
  \<open>URIError\<close>.
\<close>

definition URIError :: exn where
  "URIError = Exn (lit ''URI malformed'')"

definition is_unreserved :: "16 word \<Rightarrow> bool" where
  "is_unreserved c \<longleftrightarrow>
     (0x41 \<le> c \<and> c \<le> 0x5A) \<or> (0x61 \<le> c \<and> c \<le> 0x7A) \<or> (0x30 \<le> c \<and> c \<le> 0x39)
     \<or> c \<in> set (lit ''-_.!~*'' @ [0x27] @ lit ''()'')"

definition is_lead :: "16 word \<Rightarrow> bool" where
  "is_lead c \<longleftrightarrow> 0xD800 \<le> c \<and> c \<le> 0xDBFF"

definition is_trail :: "16 word \<Rightarrow> bool" where
  "is_trail c \<longleftrightarrow> 0xDC00 \<le> c \<and> c \<le> 0xDFFF"

definition hex_digit :: "nat \<Rightarrow> 16 word" where
  "hex_digit n = (if n < 10 then 0x30 + of_nat n else 0x41 + of_nat (n - 10))"

definition percent :: "nat \<Rightarrow> js_string" where
  "percent b = [0x25, hex_digit (b div 16), hex_digit (b mod 16)]"

definition utf8 :: "nat \<Rightarrow> nat list" where
  "utf8 cp =
     (if cp < 0x80 then [cp]
      else if cp < 0x800 then [0xC0 + cp div 0x40, 0x80 + cp mod 0x40]
      else if cp < 0x10000 then
        [0xE0 + cp div 0x1000, 0x80 + cp div 0x40 mod 0x40, 0x80 + cp mod 0x40]
      else
        [0xF0 + cp div 0x40000, 0x80 + cp div 0x1000 mod 0x40,
         0x80 + cp div 0x40 mod 0x40, 0x80 + cp mod 0x40])"

definition pair_code_point :: "16 word \<Rightarrow> 16 word \<Rightarrow> nat" where
  "pair_code_point lead trail =
     (unat lead - 0xD800) * 0x400 + (unat trail - 0xDC00) + 0x10000"

definition escape :: "nat \<Rightarrow> js_string" where
  "escape cp = concat (map percent (utf8 cp))"

fun encodeURIComponent :: "js_string \<Rightarrow> exn + js_string" where
  "encodeURIComponent [] = Inr []"
| "encodeURIComponent (c # cs) =
     (if is_unreserved c then
        (case encodeURIComponent cs of Inl e \<Rightarrow> Inl e | Inr r \<Rightarrow> Inr (c # r))
      else if is_trail c then Inl URIError
      else if is_lead c then
        (case cs of
           [] \<Rightarrow> Inl URIError
         | d # ds \<Rightarrow>
             if is_trail d then
               (case encodeURIComponent ds of
                  Inl e \<Rightarrow> Inl e
                | Inr r \<Rightarrow> Inr (escape (pair_code_point c d) @ r))
             else Inl URIError)
      else
        (case encodeURIComponent cs of
           Inl e \<Rightarrow> Inl e
         | Inr r \<Rightarrow> Inr (escape (unat c) @ r)))"

section \<open>Numbers\<close>

text \<open>
  A JavaScript number is an IEEE 754 double. \<open>fl\<close> rounds a rational to the nearest
  number with a 53-bit significand, ties to even; the exponent is not bounded, so it is
  the rounding of doubles wherever no overflow or underflow occurs, which covers every
  quotient of byte counts below \<open>2 ^ 53\<close>. Byte counts themselves are naturals.
\<close>

definition rne :: "rat \<Rightarrow> int" where
  "rne x =
     (let f = \<lfloor>x\<rfloor>; d = x - of_int f
      in if d < 1 / 2 then f else if 1 / 2 < d then f + 1 else if even f then f else f + 1)"

definition expo :: "rat \<Rightarrow> int" where
  "expo x =
     (let (n, d) = quotient_of x; e = bitlen n - bitlen d
      in if power_int 2 e \<le> x then e else e - 1)"

definition fl :: "rat \<Rightarrow> rat" where
  "fl x =
     (if x = 0 then 0
      else let u = power_int 2 (expo \<bar>x\<bar> - 52)
           in sgn x * of_int (rne (\<bar>x\<bar> / u)) * u)"

text \<open>\<open>Math.round\<close>: the nearest integer, a tie going up.\<close>

definition Math_round :: "rat \<Rightarrow> int" where
  "Math_round x = \<lfloor>x + 1 / 2\<rfloor>"

text \<open>
  \<open>Math.round((progress.loaded / totalSize) * 100)\<close>, each operation rounded; the
  handler evaluates it only when \<open>totalSize > 0\<close>.
\<close>

definition percentage :: "nat \<Rightarrow> nat \<Rightarrow> int" where
  "percentage loaded totalSize =
     Math_round (fl (fl (of_nat loaded / of_nat totalSize) * 100))"

section \<open>Values, messages and the world of one request\<close>

datatype js_value =
    JUndefined
  | JNull
  | JBool bool
  | JNum rat
  | JStr js_string
  | JArr "js_value list"
  | JObj "(js_string \<times> js_value) list"

fun truthy :: "js_value \<Rightarrow> bool" where
  "truthy JUndefined = False"
| "truthy JNull = False"
| "truthy (JBool b) = b"
| "truthy (JNum n) = (n \<noteq> 0)"
| "truthy (JStr s) = (s \<noteq> [])"
| "truthy (JArr xs) = True"
| "truthy (JObj fs) = True"

text \<open>
  Reading a property that only a parsed JSON object can own (\<open>JObj\<close> lists the own
  properties of the object, each key once).
\<close>

fun get_property :: "js_value \<Rightarrow> js_string \<Rightarrow> js_value" where
  "get_property (JObj fs) k = (case map_of fs k of None \<Rightarrow> JUndefined | Some v \<Rightarrow> v)"
| "get_property v k = JUndefined"

text \<open>The records written to the response body, one JSON line each.\<close>

datatype msg = ProgressMsg int | SuccessMsg js_string | ErrorMsg js_string

record upload_options =
  Bucket :: js_string
  Key :: js_string
  Body :: nat
  ContentType :: js_string
  ContentDisposition :: js_string
  CacheControl :: js_string
  queueSize :: nat
  partSize :: nat

datatype net_call = Fetch js_value | UploadRun upload_options

text \<open>
  The stream controller (\<open>sent\<close>: what was enqueued; \<open>closeRequested\<close>: its state;
  \<open>close_calls\<close>: how often \<open>controller.close()\<close> ran) and the outbound calls made.
\<close>

record world =
  sent :: "msg list"
  closeRequested :: bool
  close_calls :: nat
  net_calls :: "net_call list"

definition init_world :: world where
  "init_world = \<lparr>sent = [], closeRequested = False, close_calls = 0, net_calls = []\<rparr>"

section \<open>The environment\<close>

text \<open>
  What the handler does not decide: the process configuration, the request, the remote
  server and the uploader of the SDK. A response body is represented by the number of
  bytes it delivers; \<open>content_length\<close> is the declared length, when the header is there.
\<close>

record config =
  R2_BUCKET_NAME :: js_string
  R2_PUBLIC_DOMAIN :: js_string
  ADMIN_PASSWORD_env :: "js_string option"

definition ADMIN_PASSWORD :: "config \<Rightarrow> js_string" where
  "ADMIN_PASSWORD cfg =
     (case ADMIN_PASSWORD_env cfg of
        None \<Rightarrow> lit ''123''
      | Some s \<Rightarrow> if s = [] then lit ''123'' else s)"

datatype json_outcome = JsonRejects exn | JsonResolves js_value

record request =
  http_method :: js_string
  pathname :: js_string
  pass :: "js_string option"
  json :: json_outcome

record response =
  ok :: bool
  body :: "nat option"
  content_length :: "nat option"

datatype fetch_outcome = FetchRejects exn | FetchResolves response

record progress =
  loaded :: "nat option"

record upload_outcome =
  events :: "progress list"
  failure :: "exn option"

record env =
  fetch :: "js_value \<Rightarrow> fetch_outcome"
  upload_run :: "upload_options \<Rightarrow> upload_outcome"

section \<open>The stream controller\<close>

definition stream_TypeError :: exn where
  "stream_TypeError = Exn (lit ''The stream controller cannot close or enqueue'')"

definition send :: "msg \<Rightarrow> world \<Rightarrow> unit completion \<times> world" where
  "send data w =
     (if closeRequested w then (Throw stream_TypeError, w)
      else (Normal (), w\<lparr>sent := sent w @ [data]\<rparr>))"

definition controller_close :: "world \<Rightarrow> unit completion \<times> world" where
  "controller_close w =
     (if closeRequested w then (Throw stream_TypeError, w\<lparr>close_calls := Suc (close_calls w)\<rparr>)
      else (Normal (), w\<lparr>closeRequested := True, close_calls := Suc (close_calls w)\<rparr>))"

text \<open>Sequencing of statements: an abrupt completion skips what follows.\<close>

definition seq ::
  "(world \<Rightarrow> 'a completion \<times> world) \<Rightarrow> ('a \<Rightarrow> world \<Rightarrow> 'b completion \<times> world) \<Rightarrow>
   world \<Rightarrow> 'b completion \<times> world" where
  "seq m f w =
     (case m w of
        (Normal x, w') \<Rightarrow> f x w'
      | (Return, w') \<Rightarrow> (Return, w')
      | (Throw e, w') \<Rightarrow> (Throw e, w'))"

definition throw :: "exn \<Rightarrow> world \<Rightarrow> 'a completion \<times> world" where
  "throw e w = (Throw e, w)"

section \<open>The upload handler of main.ts\<close>

definition new_Upload :: "config \<Rightarrow> js_string \<Rightarrow> nat \<Rightarrow> js_string \<Rightarrow> upload_options" where
  "new_Upload cfg customName remoteBody contentType =
     \<lparr>Bucket = R2_BUCKET_NAME cfg,
      Key = customName,
      Body = remoteBody,
      ContentType = contentType,
      ContentDisposition = lit ''inline'',
      CacheControl = lit ''public, max-age=31536000, immutable'',
      queueSize = 4,
      partSize = 50 * 1024 * 1024\<rparr>"

text \<open>The same call in the second source file (the variant without a progress stream).\<close>

definition new_Upload_part_000 ::
  "config \<Rightarrow> js_string \<Rightarrow> nat \<Rightarrow> js_string \<Rightarrow> upload_options" where
  "new_Upload_part_000 cfg customName remoteBody contentType =
     \<lparr>Bucket = R2_BUCKET_NAME cfg,
      Key = customName,
      Body = remoteBody,
      ContentType = contentType,
      ContentDisposition = lit ''inline'',
      CacheControl = lit ''public, max-age=31536000, immutable'',
      queueSize = 4,
      partSize = 20 * 1024 * 1024\<rparr>"

text \<open>The listener of \<open>httpUploadProgress\<close>.\<close>

definition on_progress :: "nat \<Rightarrow> progress \<Rightarrow> world \<Rightarrow> unit completion \<times> world" where
  "on_progress totalSize p w =
     (case loaded p of
        None \<Rightarrow> (Normal (), w)
      | Some l \<Rightarrow>
          if 0 < totalSize \<and> l \<noteq> 0 then send (ProgressMsg (percentage l totalSize)) w
          else (Normal (), w))"

text \<open>
  \<open>await upload.done()\<close>: the uploader is started, calls the listener once for each
  of its progress events, in order, and then resolves or rejects. A listener that throws
  ends the run with that exception.
\<close>

fun emit :: "nat \<Rightarrow> progress list \<Rightarrow> world \<Rightarrow> unit completion \<times> world" where
  "emit totalSize [] w = (Normal (), w)"
| "emit totalSize (p # ps) w = seq (on_progress totalSize p) (\<lambda>_. emit totalSize ps) w"

definition upload_done :: "env \<Rightarrow> upload_options \<Rightarrow> nat \<Rightarrow> world \<Rightarrow> unit completion \<times> world" where
  "upload_done e upload totalSize w =
     seq (emit totalSize (events (upload_run e upload)))
       (\<lambda>_ w'. case failure (upload_run e upload) of
                  None \<Rightarrow> (Normal (), w')
                | Some x \<Rightarrow> (Throw x, w'))
       (w\<lparr>net_calls := net_calls w @ [UploadRun upload]\<rparr>)"

definition do_fetch :: "env \<Rightarrow> js_value \<Rightarrow> world \<Rightarrow> response completion \<times> world" where
  "do_fetch e remoteUrl w =
     (case fetch e remoteUrl of
        FetchRejects x \<Rightarrow> (Throw x, w\<lparr>net_calls := net_calls w @ [Fetch remoteUrl]\<rparr>)
      | FetchResolves r \<Rightarrow> (Normal r, w\<lparr>net_calls := net_calls w @ [Fetch remoteUrl]\<rparr>))"

definition lift_sum :: "exn + 'a \<Rightarrow> world \<Rightarrow> 'a completion \<times> world" where
  "lift_sum r w = (case r of Inl x \<Rightarrow> (Throw x, w) | Inr v \<Rightarrow> (Normal v, w))"

text \<open>
  Errors thrown by the engine itself: destructuring \<open>null\<close>, and calling \<open>split\<close>
  on a value that is not a string. Their texts are the engine's, shortened; no statement
  below depends on them.
\<close>

definition destructure_TypeError :: exn where
  "destructure_TypeError = Exn (lit ''Cannot destructure property of null'')"

definition split_TypeError :: exn where
  "split_TypeError = Exn (lit ''filename.split is not a function'')"

text \<open>Lines 55 to 100: the body of the \<open>try\<close> block, after the request body was read.\<close>

definition try_body :: "config \<Rightarrow> env \<Rightarrow> js_value \<Rightarrow> world \<Rightarrow> unit completion \<times> world" where
  "try_body cfg e reqBody =
     (if reqBody = JNull \<or> reqBody = JUndefined then
        throw destructure_TypeError
      else
        let remoteUrl = get_property reqBody (lit ''remoteUrl'');
            customName = get_property reqBody (lit ''customName'')
        in
          if \<not> truthy remoteUrl \<or> \<not> truthy customName then
            seq (send (ErrorMsg (lit ''Missing info''))) (\<lambda>_.
            seq controller_close (\<lambda>_ w. (Return, w)))
          else
            seq (do_fetch e remoteUrl) (\<lambda>remoteRes.
              case (ok remoteRes, body remoteRes) of
                (True, Some remoteBody) \<Rightarrow>
                  (let totalSize = (case content_length remoteRes of None \<Rightarrow> 0 | Some n \<Rightarrow> n)
                   in case customName of
                        JStr name \<Rightarrow>
                          (let contentType = getMimeType name;
                               upload = new_Upload cfg name remoteBody contentType
                           in seq (upload_done e upload totalSize) (\<lambda>_.
                              seq (lift_sum (encodeURIComponent name)) (\<lambda>encoded.
                              send (SuccessMsg (R2_PUBLIC_DOMAIN cfg @ lit ''/'' @ encoded)))))
                      | _ \<Rightarrow> throw split_TypeError)
              | _ \<Rightarrow> throw (Exn (lit ''Cannot fetch remote url''))))"

definition try_block :: "config \<Rightarrow> env \<Rightarrow> request \<Rightarrow> world \<Rightarrow> unit completion \<times> world" where
  "try_block cfg e req =
     (case json req of
        JsonRejects x \<Rightarrow> throw x
      | JsonResolves reqBody \<Rightarrow> try_body cfg e reqBody)"

text \<open>
  \<open>try { ... } catch (e) { send({ error: e.message }) } finally { controller.close() }\<close>:
  the \<open>finally\<close> block runs after a \<open>return\<close> too, and its own throw replaces the
  completion it found.
\<close>

definition start :: "config \<Rightarrow> env \<Rightarrow> request \<Rightarrow> world \<Rightarrow> unit completion \<times> world" where
  "start cfg e req w =
     (let (c1, w1) = try_block cfg e req w;
          (c2, w2) = (case c1 of Throw x \<Rightarrow> send (ErrorMsg (message x)) w1 | _ \<Rightarrow> (c1, w1));
          (c3, w3) = controller_close w2
      in case c3 of Normal _ \<Rightarrow> (c2, w3) | _ \<Rightarrow> (c3, w3))"

section \<open>The server\<close>

datatype payload = Text js_string | Html js_string | Stream "unit completion" world

record http_response =
  status :: nat
  content_type :: "js_string option"
  payload :: payload

definition serve :: "config \<Rightarrow> env \<Rightarrow> request \<Rightarrow> http_response" where
  "serve cfg e req =
     (if http_method req = lit ''GET'' \<and> pathname req = lit ''/'' then
        (case pass req of
           None \<Rightarrow> \<lparr>status = 403, content_type = None, payload = Text (lit ''Unauthorized'')\<rparr>
         | Some p \<Rightarrow>
             if p \<noteq> ADMIN_PASSWORD cfg then
               \<lparr>status = 403, content_type = None, payload = Text (lit ''Unauthorized'')\<rparr>
             else \<lparr>status = 200, content_type = Some (lit ''text/html''), payload = Html p\<rparr>)
      else if http_method req = lit ''POST'' \<and> pathname req = lit ''/api/upload'' then
        (if pass req \<noteq> Some (ADMIN_PASSWORD cfg) then
           \<lparr>status = 403, content_type = None, payload = Text (lit ''Unauthorized'')\<rparr>
         else
           (case start cfg e req init_world of
              (c, w) \<Rightarrow>
                \<lparr>status = 200, content_type = Some (lit ''application/x-ndjson''),
                 payload = Stream c w\<rparr>))
      else \<lparr>status = 404, content_type = None, payload = Text (lit ''Not Found'')\<rparr>)"

section \<open>The part splitter\<close>

text \<open>
  Modelled from the spec: the splitting of the source into parts is done inside the
  uploader of \<open>@aws-sdk/lib-storage\<close>, which is not among the source files. Section 4.3
  has it cut the stream into parts of the configured size, the last part taking what
  remains. A part is given by its size.
\<close>

function part_sizes :: "nat \<Rightarrow> nat \<Rightarrow> nat list" where
  "part_sizes p n = (if p = 0 \<or> n \<le> p then [n] else p # part_sizes p (n - p))"
  by pat_completeness auto
termination
  by (relation "measure (\<lambda>(p, n). n)") auto

declare part_sizes.simps [simp del]

section \<open>Reading a run\<close>

text \<open>
  What the theorems below say about a response body: which records end it, which
  percentages it carries, and which percentages the progress events of a run call for
  (one for each event with a non-zero byte count, when the declared size is positive).
\<close>

fun is_terminal :: "msg \<Rightarrow> bool" where
  "is_terminal (ProgressMsg p) = False"
| "is_terminal (SuccessMsg l) = True"
| "is_terminal (ErrorMsg m) = True"

fun progress_values :: "msg list \<Rightarrow> int list" where
  "progress_values [] = []"
| "progress_values (ProgressMsg p # ms) = p # progress_values ms"
| "progress_values (SuccessMsg l # ms) = progress_values ms"
| "progress_values (ErrorMsg m # ms) = progress_values ms"

definition loads :: "progress list \<Rightarrow> nat list" where
  "loads ps = concat (map (\<lambda>p. case loaded p of None \<Rightarrow> [] | Some l \<Rightarrow> [l]) ps)"

definition reported :: "nat \<Rightarrow> progress list \<Rightarrow> int list" where
  "reported totalSize ps =
     (if 0 < totalSize
      then map (\<lambda>l. percentage l totalSize) (filter (\<lambda>l. l \<noteq> 0) (loads ps))
      else [])"


definition final_msg :: "config \<Rightarrow> js_string \<Rightarrow> exn option \<Rightarrow> msg" where
  "final_msg cfg name fail =
     (case fail of
        Some x \<Rightarrow> ErrorMsg (message x)
      | None \<Rightarrow>
          (case encodeURIComponent name of
             Inl x \<Rightarrow> ErrorMsg (message x)
           | Inr enc \<Rightarrow> SuccessMsg (R2_PUBLIC_DOMAIN cfg @ lit ''/'' @ enc)))"

section \<open>Concrete runs\<close>

definition example_config :: config where
  "example_config =
     \<lparr>R2_BUCKET_NAME = lit ''videos'', R2_PUBLIC_DOMAIN = lit ''https://pub.example'',
      ADMIN_PASSWORD_env = None\<rparr>"

definition upload_request :: "js_value \<Rightarrow> request" where
  "upload_request reqBody =
     \<lparr>http_method = lit ''POST'', pathname = lit ''/api/upload'', pass = Some (lit ''123''),
      json = JsonResolves reqBody\<rparr>"

definition both_fields :: "js_string \<Rightarrow> js_string \<Rightarrow> js_value" where
  "both_fields url name = JObj [(lit ''remoteUrl'', JStr url), (lit ''customName'', JStr name)]"

definition only_remoteUrl :: "js_string \<Rightarrow> js_value" where
  "only_remoteUrl url = JObj [(lit ''remoteUrl'', JStr url)]"

definition remote_env :: "response \<Rightarrow> upload_outcome \<Rightarrow> env" where
  "remote_env r out = \<lparr>fetch = (\<lambda>_. FetchResolves r), upload_run = (\<lambda>_. out)\<rparr>"

definition not_found :: response where
  "not_found = \<lparr>ok = False, body = Some 9, content_length = Some 9\<rparr>"

definition delivered :: "nat \<Rightarrow> nat option \<Rightarrow> response" where
  "delivered n declared = \<lparr>ok = True, body = Some n, content_length = declared\<rparr>"

definition acknowledged :: "nat list \<Rightarrow> progress list" where
  "acknowledged ls = map (\<lambda>l. \<lparr>loaded = Some l\<rparr>) ls"

section \<open>Properties of getMimeType\<close>







section \<open>Rounding is monotone\<close>

lemma rne_bounds: "\<lfloor>x\<rfloor> \<le> rne x \<and> rne x \<le> \<lfloor>x\<rfloor> + 1"
  by (simp add: rne_def Let_def)

lemma rne_of_int: "rne (of_int k) = k"
  by (simp add: rne_def)

lemma rne_mono:
  assumes "x \<le> y"
  shows "rne x \<le> rne y"
proof (cases "\<lfloor>x\<rfloor> = \<lfloor>y\<rfloor>")
  case True
  with assms show ?thesis
    by (auto simp: rne_def Let_def)
next
  case False
  with floor_mono [OF assms] have "\<lfloor>x\<rfloor> + 1 \<le> \<lfloor>y\<rfloor>"
    by simp
  with rne_bounds [of x] rne_bounds [of y] show ?thesis
    by linarith
qed

lemma pow_bitlen:
  assumes "0 < n"
  shows "power_int (2::rat) (bitlen n - 1) \<le> of_int n"
    and "of_int n < power_int (2::rat) (bitlen n)"
proof -
  from bitlen_bounds [OF assms]
  have lo: "2 ^ nat (bitlen n - 1) \<le> n" and hi: "n < 2 ^ nat (bitlen n)"
    by simp_all
  have ge: "1 \<le> bitlen n"
  proof (rule ccontr)
    assume "\<not> 1 \<le> bitlen n"
    then have "nat (bitlen n) = 0" by simp
    with hi assms show False by simp
  qed
  have "(of_int (2 ^ nat (bitlen n - 1)) :: rat) \<le> of_int n"
    using lo by (simp only: of_int_le_iff)
  with ge show "power_int (2::rat) (bitlen n - 1) \<le> of_int n"
    by (simp add: power_int_def)
  have "(of_int n :: rat) < of_int (2 ^ nat (bitlen n))"
    using hi by (simp only: of_int_less_iff)
  with ge show "of_int n < power_int (2::rat) (bitlen n)"
    by (simp add: power_int_def)
qed

lemma two_powi_pos: "0 < power_int (2::rat) k"
  by simp

lemma two_powi_split: "power_int (2::rat) (a + b) = power_int 2 a * power_int 2 b"
  by (simp add: power_int_add)

lemma expo_bounds:
  assumes "0 < x"
  shows "power_int 2 (expo x) \<le> x" and "x < power_int 2 (expo x + 1)"
proof -
  obtain n d where q: "quotient_of x = (n, d)"
    by force
  have d: "0 < d"
    using quotient_of_denom_pos [OF q] .
  have x: "x = of_int n / of_int d"
    using quotient_of_div [OF q] .
  have n: "0 < n"
    using assms d x by (simp add: zero_less_divide_iff)
  define e where "e = bitlen n - bitlen d"
  have xd: "x * of_int d = of_int n"
    using d x by simp
  have "of_int n < power_int (2::rat) (bitlen n)"
    by (rule pow_bitlen [OF n])
  also have "\<dots> = power_int 2 (e + 1) * power_int 2 (bitlen d - 1)"
    by (simp add: e_def flip: two_powi_split)
  also have "\<dots> \<le> power_int 2 (e + 1) * of_int d"
    by (rule mult_left_mono [OF pow_bitlen(1) [OF d]]) simp
  finally have "x * of_int d < power_int 2 (e + 1) * of_int d"
    by (simp only: xd)
  with d have hi: "x < power_int 2 (e + 1)"
    by simp
  have "power_int 2 (e - 1) * of_int d < power_int 2 (e - 1) * power_int (2::rat) (bitlen d)"
    by (rule mult_strict_left_mono [OF pow_bitlen(2) [OF d]]) simp
  also have "\<dots> = power_int 2 (bitlen n - 1)"
    by (simp add: e_def flip: two_powi_split)
  also have "\<dots> \<le> of_int n"
    by (rule pow_bitlen [OF n])
  finally have "power_int 2 (e - 1) * of_int d < x * of_int d"
    by (simp only: xd)
  with d have lo: "power_int 2 (e - 1) < x"
    by simp
  have ex: "expo x = (if power_int 2 e \<le> x then e else e - 1)"
    by (simp add: expo_def q e_def)
  show "power_int 2 (expo x) \<le> x"
    using lo by (simp add: ex)
  show "x < power_int 2 (expo x + 1)"
    using hi by (simp add: ex)
qed

lemma expo_mono:
  assumes "0 < x" and "x \<le> y"
  shows "expo x \<le> expo y"
proof (rule ccontr)
  assume "\<not> expo x \<le> expo y"
  then have "expo y + 1 \<le> expo x"
    by simp
  then have "power_int (2::rat) (expo y + 1) \<le> power_int 2 (expo x)"
    by (rule power_int_increasing) simp
  moreover have "y < power_int 2 (expo y + 1)"
    using assms by (intro expo_bounds) simp
  moreover have "power_int 2 (expo x) \<le> x"
    using assms by (intro expo_bounds)
  ultimately show False
    using assms by linarith
qed

lemma fl_pos:
  "0 < x \<Longrightarrow> fl x = of_int (rne (x / power_int 2 (expo x - 52))) * power_int 2 (expo x - 52)"
  by (simp add: fl_def Let_def)

lemma fl_pos_bounds:
  assumes "0 < x"
  shows "power_int 2 (expo x) \<le> fl x" and "fl x \<le> power_int 2 (expo x + 1)"
proof -
  define u :: rat where "u = power_int 2 (expo x - 52)"
  have u: "0 < u"
    by (simp add: u_def)
  have lo_u: "power_int 2 (expo x) = of_int (2 ^ 52) * u"
    unfolding u_def by (simp add: power_int_diff)
  have hi_u: "power_int 2 (expo x + 1) = of_int (2 ^ 53) * u"
    unfolding u_def by (simp add: power_int_diff power_int_add)
  have "of_int (2 ^ 52) \<le> x / u"
    using expo_bounds(1) [OF assms] u by (simp add: lo_u pos_le_divide_eq)
  from rne_mono [OF this] have "2 ^ 52 \<le> rne (x / u)"
    by (simp only: rne_of_int)
  then have "(of_int (2 ^ 52) :: rat) \<le> of_int (rne (x / u))"
    by (simp only: of_int_le_iff)
  with u have "of_int (2 ^ 52) * u \<le> of_int (rne (x / u)) * u"
    by (simp only: mult_le_cancel_right) simp
  then show "power_int 2 (expo x) \<le> fl x"
    by (simp only: lo_u fl_pos [OF assms] u_def)
  have "x / u \<le> of_int (2 ^ 53)"
    using expo_bounds(2) [OF assms] u by (simp add: hi_u pos_divide_le_eq)
  from rne_mono [OF this] have "rne (x / u) \<le> 2 ^ 53"
    by (simp only: rne_of_int)
  then have "(of_int (rne (x / u)) :: rat) \<le> of_int (2 ^ 53)"
    by (simp only: of_int_le_iff)
  with u have "of_int (rne (x / u)) * u \<le> of_int (2 ^ 53) * u"
    by (simp only: mult_le_cancel_right) simp
  then show "fl x \<le> power_int 2 (expo x + 1)"
    by (simp only: hi_u fl_pos [OF assms] u_def)
qed

lemma fl_nonneg: "0 \<le> x \<Longrightarrow> 0 \<le> fl x"
  by (simp add: fl_def Let_def rne_def sgn_if) 

lemma fl_mono:
  assumes "0 \<le> x" and "x \<le> y"
  shows "fl x \<le> fl y"
proof (cases "x = 0")
  case True
  with assms fl_nonneg [of y] show ?thesis
    by (simp add: fl_def)
next
  case False
  with assms have x: "0 < x" and y: "0 < y"
    by simp_all
  show ?thesis
  proof (cases "expo x = expo y")
    case True
    define u :: rat where "u = power_int 2 (expo y - 52)"
    have u: "0 < u"
      by (simp add: u_def)
    with assms have "x / u \<le> y / u"
      by (simp add: divide_right_mono)
    from rne_mono [OF this] have "(of_int (rne (x / u)) :: rat) \<le> of_int (rne (y / u))"
      by (simp only: of_int_le_iff)
    with u have "of_int (rne (x / u)) * u \<le> of_int (rne (y / u)) * u"
      by (simp only: mult_le_cancel_right) simp
    then show ?thesis
      by (simp only: fl_pos [OF x] fl_pos [OF y] True u_def)
  next
    case False
    with expo_mono [OF x assms(2)] have "expo x + 1 \<le> expo y"
      by simp
    then have "power_int (2::rat) (expo x + 1) \<le> power_int 2 (expo y)"
      by (rule power_int_increasing) simp
    with fl_pos_bounds(2) [OF x] fl_pos_bounds(1) [OF y] show ?thesis
      by linarith
  qed
qed

lemma fl_1: "fl 1 = 1"
  by code_simp

lemma fl_100: "fl 100 = 100"
  by code_simp

lemma Math_round_mono: "x \<le> y \<Longrightarrow> Math_round x \<le> Math_round y"
  by (simp add: Math_round_def floor_mono)

lemma percentage_mono:
  assumes "a \<le> b"
  shows "percentage a t \<le> percentage b t"
proof -
  have "(of_nat a :: rat) / of_nat t \<le> of_nat b / of_nat t"
    using assms by (simp add: divide_right_mono)
  then have "fl (of_nat a / of_nat t) * 100 \<le> fl (of_nat b / of_nat t) * 100"
    by (simp add: fl_mono)
  moreover have "0 \<le> fl (of_nat a / of_nat t) * 100"
    by (simp add: fl_nonneg)
  ultimately show ?thesis
    unfolding percentage_def by (intro Math_round_mono fl_mono)
qed

lemma percentage_nonneg: "0 \<le> percentage a t"
proof -
  have "0 \<le> fl (fl (of_nat a / of_nat t) * 100)"
    by (intro fl_nonneg mult_nonneg_nonneg) simp_all
  then show ?thesis
    by (simp add: percentage_def Math_round_def)
qed

lemma percentage_le_100:
  assumes "a \<le> t"
  shows "percentage a t \<le> 100"
proof -
  have "(of_nat a :: rat) / of_nat t \<le> 1"
    using assms by (cases "t = 0") (simp_all add: divide_le_eq_1)
  then have "fl (of_nat a / of_nat t) \<le> 1"
    using fl_mono [of "of_nat a / of_nat t" 1] by (simp add: fl_1)
  then have "fl (of_nat a / of_nat t) * 100 \<le> 100"
    by simp
  moreover have "0 \<le> fl (of_nat a / of_nat t) * 100"
    by (simp add: fl_nonneg)
  ultimately have "fl (fl (of_nat a / of_nat t) * 100) \<le> 100"
    using fl_mono [of "fl (of_nat a / of_nat t) * 100" 100] by (simp add: fl_100)
  then have "fl (fl (of_nat a / of_nat t) * 100) + 1 / 2 < 101"
    by simp
  then show ?thesis
    unfolding percentage_def Math_round_def by (simp add: floor_less_iff)
qed


section \<open>The runs of the handler\<close>

lemma reported_Nil: "reported t [] = []"
  by (simp add: reported_def loads_def)

lemma reported_Cons:
  "reported t (p # ps) =
     (case loaded p of
        None \<Rightarrow> reported t ps
      | Some l \<Rightarrow> if 0 < t \<and> l \<noteq> 0 then percentage l t # reported t ps else reported t ps)"
  by (simp add: reported_def loads_def split: option.split)

lemma emit_open:
  "\<not> closeRequested w \<Longrightarrow>
   emit t ps w = (Normal (), w\<lparr>sent := sent w @ map ProgressMsg (reported t ps)\<rparr>)"
proof (induction ps arbitrary: w)
  case Nil
  then show ?case by (simp add: reported_Nil)
next
  case (Cons p ps)
  show ?case
  proof (cases "loaded p")
    case None
    with Cons show ?thesis
      by (simp add: seq_def on_progress_def reported_Cons)
  next
    case (Some l)
    show ?thesis
    proof (cases "0 < t \<and> l \<noteq> 0")
      case True
      with Some Cons.prems Cons.IH [of "w\<lparr>sent := sent w @ [ProgressMsg (percentage l t)]\<rparr>"]
      show ?thesis
        by (simp add: seq_def on_progress_def send_def reported_Cons)
    next
      case False
      with Some Cons show ?thesis
        by (auto simp: seq_def on_progress_def reported_Cons)
    qed
  qed
qed

lemma progress_values_shape:
  "is_terminal t \<Longrightarrow> progress_values (map ProgressMsg ps @ [t]) = ps"
  by (induction ps) (cases t; simp)+


lemma start_upload:
  assumes "json req = JsonResolves b"
    and "truthy (get_property b (lit ''remoteUrl''))"
    and "get_property b (lit ''customName'') = JStr name"
    and "name \<noteq> []"
    and "fetch e (get_property b (lit ''remoteUrl'')) = FetchResolves r"
    and "ok r"
    and "body r = Some rb"
  shows "start cfg e req init_world =
    (Normal (),
     \<lparr>sent = map ProgressMsg
         (reported (case content_length r of None \<Rightarrow> 0 | Some n \<Rightarrow> n)
            (events (upload_run e (new_Upload cfg name rb (getMimeType name))))) @
         [final_msg cfg name (failure (upload_run e (new_Upload cfg name rb (getMimeType name))))],
      closeRequested = True, close_calls = 1,
      net_calls = [Fetch (get_property b (lit ''remoteUrl'')),
                   UploadRun (new_Upload cfg name rb (getMimeType name))]\<rparr>)"
proof -
  from assms(2) have nn: "b \<noteq> JNull" "b \<noteq> JUndefined"
    by auto
  show ?thesis
    using assms nn
    by (simp add: start_def try_block_def try_body_def seq_def do_fetch_def upload_done_def
        emit_open init_world_def Let_def lift_sum_def send_def controller_close_def
        final_msg_def throw_def split: option.split sum.split)
qed

lemma start_other:
  assumes "\<not> (\<exists>b name r rb. json req = JsonResolves b
      \<and> truthy (get_property b (lit ''remoteUrl''))
      \<and> get_property b (lit ''customName'') = JStr name \<and> name \<noteq> []
      \<and> fetch e (get_property b (lit ''remoteUrl'')) = FetchResolves r
      \<and> ok r \<and> body r = Some rb)"
  shows "\<exists>c m k n. start cfg e req init_world =
      (c, \<lparr>sent = [ErrorMsg m], closeRequested = True, close_calls = k, net_calls = n\<rparr>)
      \<and> (\<forall>u. UploadRun u \<notin> set n)"
proof (cases "json req")
  case (JsonRejects x)
  then show ?thesis
    by (simp add: start_def try_block_def throw_def send_def controller_close_def init_world_def)
next
  case (JsonResolves b)
  show ?thesis
  proof (cases "b = JNull \<or> b = JUndefined")
    case True
    with JsonResolves show ?thesis
      by (auto simp: start_def try_block_def try_body_def throw_def send_def
          controller_close_def init_world_def)
  next
    case notnull: False
    show ?thesis
    proof (cases "truthy (get_property b (lit ''remoteUrl''))
        \<and> truthy (get_property b (lit ''customName''))")
      case False
      with JsonResolves notnull show ?thesis
        by (auto simp: start_def try_block_def try_body_def throw_def send_def seq_def
            controller_close_def init_world_def Let_def)
    next
      case True
      show ?thesis
      proof (cases "fetch e (get_property b (lit ''remoteUrl''))")
        case (FetchRejects x)
        with JsonResolves notnull True show ?thesis
          by (simp add: start_def try_block_def try_body_def throw_def send_def seq_def
            controller_close_def init_world_def Let_def do_fetch_def)
      next
        case (FetchResolves r)
        show ?thesis
        proof (cases "ok r \<and> body r \<noteq> None")
          case False
          with JsonResolves notnull True FetchResolves show ?thesis
            by (auto simp: start_def try_block_def try_body_def throw_def send_def seq_def
              controller_close_def init_world_def Let_def do_fetch_def split: option.split bool.split)
        next
          case okb: True
          with assms JsonResolves True FetchResolves
          have "\<forall>name. get_property b (lit ''customName'') \<noteq> JStr name"
            by auto
          with JsonResolves notnull True FetchResolves okb show ?thesis
            by (cases "get_property b (lit ''customName'')")
              (auto simp: start_def try_block_def try_body_def throw_def send_def seq_def
                controller_close_def init_world_def Let_def do_fetch_def)
        qed
      qed
    qed
  qed
qed

lemma final_msg_terminal: "is_terminal (final_msg cfg name fail)"
  by (simp add: final_msg_def split: option.split sum.split)

lemma start_cases:
  obtains
    (upload) b name r rb where
      "json req = JsonResolves b"
      "get_property b (lit ''customName'') = JStr name"
      "fetch e (get_property b (lit ''remoteUrl'')) = FetchResolves r"
      "body r = Some rb"
      "start cfg e req init_world =
        (Normal (),
         \<lparr>sent = map ProgressMsg
             (reported (case content_length r of None \<Rightarrow> 0 | Some n \<Rightarrow> n)
                (events (upload_run e (new_Upload cfg name rb (getMimeType name))))) @
             [final_msg cfg name
                (failure (upload_run e (new_Upload cfg name rb (getMimeType name))))],
          closeRequested = True, close_calls = 1,
          net_calls = [Fetch (get_property b (lit ''remoteUrl'')),
                       UploadRun (new_Upload cfg name rb (getMimeType name))]\<rparr>)"
  | (other) c m k n where
      "start cfg e req init_world =
        (c, \<lparr>sent = [ErrorMsg m], closeRequested = True, close_calls = k, net_calls = n\<rparr>)"
      "\<forall>u. UploadRun u \<notin> set n"
proof (cases "\<exists>b name r rb. json req = JsonResolves b
      \<and> truthy (get_property b (lit ''remoteUrl''))
      \<and> get_property b (lit ''customName'') = JStr name \<and> name \<noteq> []
      \<and> fetch e (get_property b (lit ''remoteUrl'')) = FetchResolves r
      \<and> ok r \<and> body r = Some rb")
  case True
  then obtain b name r rb where h: "json req = JsonResolves b"
      "truthy (get_property b (lit ''remoteUrl''))"
      "get_property b (lit ''customName'') = JStr name" "name \<noteq> []"
      "fetch e (get_property b (lit ''remoteUrl'')) = FetchResolves r"
      "ok r" "body r = Some rb"
    by blast
  from upload [OF h(1) h(3) h(5) h(7) start_upload [OF h]] show ?thesis .
next
  case False
  from start_other [OF False, of cfg] obtain c m k n where
    "start cfg e req init_world =
      (c, \<lparr>sent = [ErrorMsg m], closeRequested = True, close_calls = k, net_calls = n\<rparr>)"
    "\<forall>u. UploadRun u \<notin> set n"
    by blast
  then show ?thesis
    by (rule other)
qed


lemma percentages_sorted:
  "sorted ls \<Longrightarrow> sorted (map (\<lambda>l. percentage l t) (filter P ls))"
  by (induction ls) (auto simp: percentage_mono)

lemma reported_sorted: "sorted (loads ps) \<Longrightarrow> sorted (reported t ps)"
  by (simp add: reported_def percentages_sorted)

lemma reported_range:
  assumes "\<forall>l\<in>set (loads ps). l \<le> t" and "p \<in> set (reported t ps)"
  shows "0 \<le> p \<and> p \<le> 100"
  using assms by (auto simp: reported_def percentage_nonneg percentage_le_100 split: if_splits)

section \<open>Concrete runs and values\<close>

lemma both_fields_props:
  "get_property (both_fields url name) (lit ''remoteUrl'') = JStr url"
  "get_property (both_fields url name) (lit ''customName'') = JStr name"
  by (simp_all add: both_fields_def lit_def)

lemma example_upload_run:
  assumes "name \<noteq> []"
  shows "start cfg (remote_env (delivered n d) out)
      (upload_request (both_fields (lit ''http://example.com/video.mp4'') name)) init_world =
    (Normal (),
     \<lparr>sent = map ProgressMsg (reported (case d of None \<Rightarrow> 0 | Some n \<Rightarrow> n) (events out)) @
         [final_msg cfg name (failure out)],
      closeRequested = True, close_calls = 1,
      net_calls = [Fetch (JStr (lit ''http://example.com/video.mp4'')),
                   UploadRun (new_Upload cfg name n (getMimeType name))]\<rparr>)"
proof -
  let ?b = "both_fields (lit ''http://example.com/video.mp4'') name"
  have u: "get_property ?b (lit ''remoteUrl'') = JStr (lit ''http://example.com/video.mp4'')"
    by (simp add: both_fields_def lit_def)
  have c: "get_property ?b (lit ''customName'') = JStr name"
    by (simp add: both_fields_def lit_def)
  have t: "truthy (get_property ?b (lit ''remoteUrl''))"
    by (simp only: u) (simp add: lit_def)
  have j: "json (upload_request ?b) = JsonResolves ?b"
    by (simp add: upload_request_def)
  have f: "fetch (remote_env (delivered n d) out) (get_property ?b (lit ''remoteUrl''))
      = FetchResolves (delivered n d)"
    by (simp add: remote_env_def)
  from start_upload [OF j t c assms f, of n cfg] show ?thesis
    by (simp add: delivered_def remote_env_def u)
qed

lemma percentage_150_100: "percentage 150 100 = 150"
  by code_simp

lemma percentage_50_100: "percentage 50 100 = 50"
  by code_simp

lemma percentage_100_100: "percentage 100 100 = 100"
  by code_simp



lemma encode_plain: "encodeURIComponent (lit ''a.mp4'') = Inr (lit ''a.mp4'')"
  by (simp add: lit_def is_unreserved_def)


lemma final_msg_plain:
  "final_msg example_config (lit ''a.mp4'') None = SuccessMsg (lit ''https://pub.example/a.mp4'')"
  by (simp add: final_msg_def encode_plain example_config_def) (simp add: lit_def)

lemma serve_not_found:
  "payload (serve example_config (remote_env not_found \<lparr>events = [], failure = None\<rparr>)
        (upload_request (both_fields (lit ''http://example.com/gone.mp4'') (lit ''a.mp4''))))
   = Stream (Normal ())
       \<lparr>sent = [ErrorMsg (lit ''Cannot fetch remote url'')], closeRequested = True,
         close_calls = 1, net_calls = [Fetch (JStr (lit ''http://example.com/gone.mp4''))]\<rparr>"
  by (simp add: serve_def upload_request_def ADMIN_PASSWORD_def example_config_def
      start_def try_block_def try_body_def both_fields_props seq_def do_fetch_def remote_env_def
      not_found_def throw_def send_def controller_close_def init_world_def)
    (simp add: lit_def both_fields_def)

section \<open>The output of encodeURIComponent\<close>











section \<open>Parts\<close>

lemma sum_part_sizes: "sum_list (part_sizes p n) = n"
proof (induction p n rule: part_sizes.induct)
  case (1 p n)
  show ?case
  proof (cases "p = 0 \<or> n \<le> p")
    case True
    then show ?thesis
      by (subst part_sizes.simps) simp
  next
    case False
    with 1 show ?thesis
      by (subst part_sizes.simps) simp
  qed
qed

lemma part_sizes_last: "p = 0 \<or> n \<le> p \<Longrightarrow> part_sizes p n = [n]"
  by (subst part_sizes.simps) simp

lemma part_sizes_step: "\<not> (p = 0 \<or> n \<le> p) \<Longrightarrow> part_sizes p n = p # part_sizes p (n - p)"
  by (subst part_sizes.simps) simp

lemma parts_50: "part_sizes 52428800 104857600 = [52428800, 52428800]"
  by (simp add: part_sizes_step part_sizes_last)

lemma parts_20:
  "part_sizes 20971520 104857600 = [20971520, 20971520, 20971520, 20971520, 20971520]"
  by (simp add: part_sizes_step part_sizes_last)

section \<open>Closing the channel\<close>

text \<open>How often \<open>controller.close()\<close> runs, on every path of the handler.\<close>

lemma close_calls_count:
  "close_calls (snd (start cfg e req init_world)) =
     (case json req of
        JsonRejects x \<Rightarrow> 1
      | JsonResolves b \<Rightarrow>
          if b \<noteq> JNull \<and> b \<noteq> JUndefined
             \<and> (\<not> truthy (get_property b (lit ''remoteUrl''))
                  \<or> \<not> truthy (get_property b (lit ''customName'')))
          then 2 else 1)"
proof (cases "json req")
  case (JsonRejects x)
  then show ?thesis
    by (simp add: start_def try_block_def throw_def send_def controller_close_def init_world_def)
next
  case (JsonResolves b)
  show ?thesis
  proof (cases "b = JNull \<or> b = JUndefined")
    case True
    with JsonResolves show ?thesis
      by (auto simp: start_def try_block_def try_body_def throw_def send_def
          controller_close_def init_world_def)
  next
    case notnull: False
    show ?thesis
    proof (cases "truthy (get_property b (lit ''remoteUrl''))
        \<and> truthy (get_property b (lit ''customName''))")
      case False
      with JsonResolves notnull show ?thesis
        by (auto simp: start_def try_block_def try_body_def throw_def send_def seq_def
            controller_close_def init_world_def Let_def)
    next
      case True
      show ?thesis
      proof (cases rule: start_cases [of req e cfg])
        case (upload b' name r rb)
        with JsonResolves notnull True show ?thesis
          by simp
      next
        case (other c m k n)
        have "k = 1"
        proof (cases "fetch e (get_property b (lit ''remoteUrl''))")
          case (FetchRejects x)
          with JsonResolves notnull True other(1) show ?thesis
            by (simp add: start_def try_block_def try_body_def throw_def send_def seq_def
              controller_close_def init_world_def Let_def do_fetch_def)
        next
          case (FetchResolves r)
          with JsonResolves notnull True other(1) show ?thesis
            by (cases "get_property b (lit ''customName'')")
              (auto simp: start_def try_block_def try_body_def throw_def send_def seq_def
                controller_close_def init_world_def Let_def do_fetch_def upload_done_def
                emit_open lift_sum_def
                split: option.splits bool.splits sum.splits)
        qed
        with other JsonResolves notnull True show ?thesis
          by simp
      qed
    qed
  qed
qed

text \<open>
  C1 says that the output channel is closed exactly once on every exit path, the
  validation failure included. On that path the handler closes the controller in the
  branch (line 60) and again in the \<open>finally\<close> block (line 105): for a request body with
  \<open>remoteUrl\<close> and no \<open>customName\<close>, the one error record is enqueued, no network call is
  made, \<open>controller.close()\<close> runs twice, and the second call throws out of \<open>start\<close>.
\<close>

theorem start_missing_customName_closes_twice:
  "start cfg e (upload_request (only_remoteUrl (lit ''http://example.com/video.mp4''))) init_world =
     (Throw stream_TypeError,
      \<lparr>sent = [ErrorMsg (lit ''Missing info'')], closeRequested = True, close_calls = 2,
       net_calls = []\<rparr>)"
  by (simp add: start_def try_block_def try_body_def upload_request_def only_remoteUrl_def
      seq_def send_def controller_close_def init_world_def lit_def Let_def)

section \<open>Progress percentages\<close>

text \<open>
  C2, as amended. If, in the upload a session runs, the byte counts the uploader reports
  are non-decreasing and never exceed the declared total size, then every percentage
  written is an integer between 0 and 100 and the percentages written are non-decreasing.
  The handler itself neither clamps a percentage nor compares a byte count with the
  declared size.
\<close>

theorem progress_percentages_bounded:
  assumes run: "start cfg e req init_world = (c, w)"
    and mono: "\<And>u. UploadRun u \<in> set (net_calls w) \<Longrightarrow> sorted (loads (events (upload_run e u)))"
    and bound: "\<And>u url r n l. UploadRun u \<in> set (net_calls w) \<Longrightarrow> Fetch url \<in> set (net_calls w)
        \<Longrightarrow> fetch e url = FetchResolves r \<Longrightarrow> content_length r = Some n \<Longrightarrow> 0 < n
        \<Longrightarrow> l \<in> set (loads (events (upload_run e u))) \<Longrightarrow> l \<le> n"
  shows "sorted (progress_values (sent w))
    \<and> (\<forall>p\<in>set (progress_values (sent w)). 0 \<le> p \<and> p \<le> 100)"
proof (cases rule: start_cases [of req e cfg])
  case (upload b name r rb)
  let ?u = "new_Upload cfg name rb (getMimeType name)"
  let ?t = "case content_length r of None \<Rightarrow> 0 | Some n \<Rightarrow> n"
  from upload(5) run have w: "progress_values (sent w) = reported ?t (events (upload_run e ?u))"
    and nc: "net_calls w = [Fetch (get_property b (lit ''remoteUrl'')), UploadRun ?u]"
    by (auto simp: progress_values_shape final_msg_terminal)
  have s: "sorted (loads (events (upload_run e ?u)))"
    by (rule mono) (simp add: nc)
  show ?thesis
  proof (cases "content_length r")
    case None
    then show ?thesis
      by (simp add: w reported_def)
  next
    case (Some n)
    show ?thesis
    proof (cases "0 < n")
      case True
      have "\<forall>l\<in>set (loads (events (upload_run e ?u))). l \<le> n"
        using bound [OF _ _ upload(3) Some True, of ?u] by (simp add: nc)
      with s Some show ?thesis
        using reported_range [of "events (upload_run e ?u)" n]
        by (simp add: w reported_sorted)
    next
      case False
      with Some show ?thesis
        by (simp add: w reported_def)
    qed
  qed
next
  case (other c' m k n)
  with run show ?thesis
    by auto
qed

text \<open>C2, as amended, at a body of 100 declared bytes acknowledged as 50 and then 100.\<close>

theorem progress_percentages_bounded_witness:
  "sorted (progress_values
      [ProgressMsg 50, ProgressMsg 100, SuccessMsg (lit ''https://pub.example/a.mp4'')])
   \<and> list_all (\<lambda>p. 0 \<le> p \<and> p \<le> 100) (progress_values
      [ProgressMsg 50, ProgressMsg 100, SuccessMsg (lit ''https://pub.example/a.mp4'')])
   \<and> start example_config
       (remote_env (delivered 100 (Some 100)) \<lparr>events = acknowledged [50, 100], failure = None\<rparr>)
       (upload_request (both_fields (lit ''http://example.com/video.mp4'') (lit ''a.mp4'')))
       init_world
     = (Normal (),
        \<lparr>sent = [ProgressMsg 50, ProgressMsg 100, SuccessMsg (lit ''https://pub.example/a.mp4'')],
         closeRequested = True, close_calls = 1,
         net_calls = [Fetch (JStr (lit ''http://example.com/video.mp4'')),
                      UploadRun (new_Upload example_config (lit ''a.mp4'') 100
                        (getMimeType (lit ''a.mp4'')))]\<rparr>)"
proof -
  let ?e = "remote_env (delivered 100 (Some 100))
      \<lparr>events = acknowledged [50, 100], failure = None\<rparr>"
  let ?w = "\<lparr>sent = [ProgressMsg 50, ProgressMsg 100, SuccessMsg (lit ''https://pub.example/a.mp4'')],
         closeRequested = True, close_calls = 1,
         net_calls = [Fetch (JStr (lit ''http://example.com/video.mp4'')),
                      UploadRun (new_Upload example_config (lit ''a.mp4'') 100
                        (getMimeType (lit ''a.mp4'')))]\<rparr>"
  have "lit ''a.mp4'' \<noteq> []"
    by (simp add: lit_def)
  from example_upload_run [OF this, of example_config 100 "Some 100"
      "\<lparr>events = acknowledged [50, 100], failure = None\<rparr>"]
  have run: "start example_config ?e
       (upload_request (both_fields (lit ''http://example.com/video.mp4'') (lit ''a.mp4'')))
       init_world = (Normal (), ?w)"
    by (simp add: reported_def loads_def acknowledged_def percentage_50_100
        percentage_100_100 final_msg_plain)
  have mono: "sorted (loads (events (upload_run ?e u)))" for u
    by (simp add: remote_env_def loads_def acknowledged_def)
  have bound: "l \<le> n"
    if "fetch ?e url = FetchResolves r" "content_length r = Some n" "0 < n"
      "l \<in> set (loads (events (upload_run ?e u)))" for u url r n l
    using that by (auto simp: remote_env_def loads_def acknowledged_def delivered_def)
  from progress_percentages_bounded [OF run mono bound] run show ?thesis
    by (simp add: list_all_iff)
qed

text \<open>
  C2 as stated fails as soon as the uploader acknowledges more bytes than the remote
  server declared, which nothing in the handler excludes: 150 bytes acknowledged of 100
  declared are written as 150 percent.
\<close>

theorem percentage_above_100_counterexample:
  "sent (snd (start example_config
       (remote_env (delivered 150 (Some 100)) \<lparr>events = acknowledged [150], failure = None\<rparr>)
       (upload_request (both_fields (lit ''http://example.com/video.mp4'') (lit ''a.mp4'')))
       init_world))
   = [ProgressMsg 150, SuccessMsg (lit ''https://pub.example/a.mp4'')]"
proof -
  have "lit ''a.mp4'' \<noteq> []"
    by (simp add: lit_def)
  from example_upload_run [OF this] show ?thesis
    by (simp add: reported_def loads_def acknowledged_def percentage_150_100 final_msg_plain)
qed




section \<open>The configuration of the upload\<close>

text \<open>
  C3, as amended. Both source files set the concurrency limit to 4. The handler with the
  progress stream (main.ts) sets the part size to 50 MiB, so a resource of 100 MiB goes
  up in 2 parts; the second file sets it to 20 MiB, which gives 5 parts. In both, the
  sizes of the parts add up to the size of the source.
\<close>

theorem upload_part_configuration:
  "queueSize (new_Upload cfg name b t) = 4
   \<and> partSize (new_Upload cfg name b t) = 50 * 1024 * 1024
   \<and> part_sizes (partSize (new_Upload cfg name b t)) (100 * 1024 * 1024)
       = [50 * 1024 * 1024, 50 * 1024 * 1024]
   \<and> sum_list (part_sizes (partSize (new_Upload cfg name b t)) n) = n
   \<and> queueSize (new_Upload_part_000 cfg name b t) = 4
   \<and> partSize (new_Upload_part_000 cfg name b t) = 20 * 1024 * 1024
   \<and> length (part_sizes (partSize (new_Upload_part_000 cfg name b t)) (100 * 1024 * 1024)) = 5
   \<and> sum_list (part_sizes (partSize (new_Upload_part_000 cfg name b t)) n) = n"
  by (simp add: new_Upload_def new_Upload_part_000_def sum_part_sizes parts_50 parts_20)

text \<open>
  C3 as stated fails for main.ts: its part size is not 20 MiB, and 100 MiB are fewer
  than 5 parts.
\<close>

theorem main_part_size_counterexample:
  "partSize (new_Upload example_config (lit ''a.mp4'') (100 * 1024 * 1024) (lit ''video/mp4''))
     \<noteq> 20 * 1024 * 1024
   \<and> length (part_sizes
        (partSize (new_Upload example_config (lit ''a.mp4'') (100 * 1024 * 1024) (lit ''video/mp4'')))
        (100 * 1024 * 1024)) < 5"
  by (simp add: new_Upload_def parts_50)

section \<open>Failures before the upload\<close>

text \<open>
  C6. If the remote fetch resolves with a non-success status or without a body, the run
  ends with the single error record \<open>Cannot fetch remote url\<close>, the channel closed once,
  and the only network call made is the one fetch: no second attempt and no upload, so
  nothing is created at the destination key.
\<close>

theorem fetch_failure_single_attempt:
  assumes "json req = JsonResolves reqBody"
    and "truthy (get_property reqBody (lit ''remoteUrl''))"
    and "truthy (get_property reqBody (lit ''customName''))"
    and "fetch e (get_property reqBody (lit ''remoteUrl'')) = FetchResolves remoteRes"
    and "\<not> ok remoteRes \<or> body remoteRes = None"
  shows "start cfg e req init_world =
     (Normal (),
      \<lparr>sent = [ErrorMsg (lit ''Cannot fetch remote url'')], closeRequested = True,
       close_calls = 1, net_calls = [Fetch (get_property reqBody (lit ''remoteUrl''))]\<rparr>)"
proof -
  from assms(2) have "reqBody \<noteq> JNull" "reqBody \<noteq> JUndefined"
    by auto
  with assms show ?thesis
    by (auto simp: start_def try_block_def try_body_def seq_def send_def controller_close_def
        init_world_def Let_def throw_def do_fetch_def split: option.split bool.split)
qed

text \<open>C6 at a remote server that answers 404.\<close>

theorem fetch_failure_single_attempt_witness:
  "\<not> ok not_found
   \<and> start example_config (remote_env not_found \<lparr>events = [], failure = None\<rparr>)
       (upload_request (both_fields (lit ''http://example.com/gone.mp4'') (lit ''a.mp4'')))
       init_world
     = (Normal (),
        \<lparr>sent = [ErrorMsg (lit ''Cannot fetch remote url'')], closeRequested = True,
         close_calls = 1, net_calls = [Fetch (JStr (lit ''http://example.com/gone.mp4''))]\<rparr>)"
proof -
  let ?b = "both_fields (lit ''http://example.com/gone.mp4'') (lit ''a.mp4'')"
  let ?e = "remote_env not_found \<lparr>events = [], failure = None\<rparr>"
  have j: "json (upload_request ?b) = JsonResolves ?b"
    by (simp add: upload_request_def)
  have u: "truthy (get_property ?b (lit ''remoteUrl''))"
    by (simp only: both_fields_props) (simp add: lit_def)
  have n: "truthy (get_property ?b (lit ''customName''))"
    by (simp only: both_fields_props) (simp add: lit_def)
  have f: "fetch ?e (get_property ?b (lit ''remoteUrl'')) = FetchResolves not_found"
    by (simp add: remote_env_def)
  have k: "\<not> ok not_found"
    by (simp add: not_found_def)
  from fetch_failure_single_attempt [OF j u n f disjI1 [OF k], of example_config] k
  show ?thesis
    by (simp only: both_fields_props) simp
qed

text \<open>
  C7. If \<open>remoteUrl\<close> or \<open>customName\<close> is absent from the request body (or falsy), the
  handler makes no network call, neither a fetch nor an upload, and the only record it
  writes is an error record: \<open>Missing info\<close>, unless the body is \<open>null\<close>, where the
  destructuring already throws.
\<close>

theorem missing_field_no_network_call:
  assumes "json req = JsonResolves reqBody"
    and "\<not> truthy (get_property reqBody (lit ''remoteUrl''))
         \<or> \<not> truthy (get_property reqBody (lit ''customName''))"
  shows "net_calls (snd (start cfg e req init_world)) = []
    \<and> (\<exists>m. sent (snd (start cfg e req init_world)) = [ErrorMsg m])
    \<and> (reqBody \<noteq> JNull \<and> reqBody \<noteq> JUndefined
         \<longrightarrow> sent (snd (start cfg e req init_world)) = [ErrorMsg (lit ''Missing info'')])"
  using assms
  by (auto simp: start_def try_block_def try_body_def seq_def send_def controller_close_def
      init_world_def Let_def throw_def)

text \<open>C7 at a request body that has \<open>remoteUrl\<close> only.\<close>

theorem missing_field_no_network_call_witness:
  "\<not> truthy (get_property (only_remoteUrl (lit ''http://example.com/video.mp4''))
         (lit ''customName''))
   \<and> net_calls (snd (start example_config (remote_env not_found \<lparr>events = [], failure = None\<rparr>)
         (upload_request (only_remoteUrl (lit ''http://example.com/video.mp4''))) init_world)) = []
   \<and> sent (snd (start example_config (remote_env not_found \<lparr>events = [], failure = None\<rparr>)
         (upload_request (only_remoteUrl (lit ''http://example.com/video.mp4''))) init_world))
       = [ErrorMsg (lit ''Missing info'')]"
proof -
  let ?b = "only_remoteUrl (lit ''http://example.com/video.mp4'')"
  have j: "json (upload_request ?b) = JsonResolves ?b"
    by (simp add: upload_request_def)
  have f: "\<not> truthy (get_property ?b (lit ''customName''))"
    by (simp add: only_remoteUrl_def lit_def)
  have n: "?b \<noteq> JNull" "?b \<noteq> JUndefined"
    by (simp_all add: only_remoteUrl_def)
  from missing_field_no_network_call [OF j disjI2 [OF f],
      of example_config "remote_env not_found \<lparr>events = [], failure = None\<rparr>"] f n
  show ?thesis
    by simp
qed

section \<open>The link and the response\<close>



text \<open>
  C10. A POST to \<open>/api/upload\<close> with the right \<open>pass\<close> is answered with status 200 and
  content type \<open>application/x-ndjson\<close>, whatever happens to the upload. The body ends
  with one terminal record, and that record is an error record unless an upload was run
  and did not fail: missing fields, a failed fetch and a failed upload are all reported
  in the body.
\<close>

theorem authenticated_upload_answers_200:
  assumes "http_method req = lit ''POST''"
    and "pathname req = lit ''/api/upload''"
    and "pass req = Some (ADMIN_PASSWORD cfg)"
  shows "status (serve cfg e req) = 200
    \<and> content_type (serve cfg e req) = Some (lit ''application/x-ndjson'')
    \<and> (\<exists>c w t. payload (serve cfg e req) = Stream c w
         \<and> start cfg e req init_world = (c, w)
         \<and> sent w = map ProgressMsg (progress_values (sent w)) @ [t]
         \<and> ((\<exists>l. t = SuccessMsg l) \<or> (\<exists>m. t = ErrorMsg m))
         \<and> ((\<forall>u. UploadRun u \<in> set (net_calls w) \<longrightarrow> failure (upload_run e u) \<noteq> None)
              \<longrightarrow> (\<exists>m. t = ErrorMsg m)))"
proof -
  obtain c w where run: "start cfg e req init_world = (c, w)"
    by force
  have post: "lit ''POST'' \<noteq> lit ''GET''"
    by (simp add: lit_def)
  from assms run post have resp: "serve cfg e req =
      \<lparr>status = 200, content_type = Some (lit ''application/x-ndjson''), payload = Stream c w\<rparr>"
    by (simp add: serve_def)
  have "\<exists>t. sent w = map ProgressMsg (progress_values (sent w)) @ [t]
         \<and> ((\<exists>l. t = SuccessMsg l) \<or> (\<exists>m. t = ErrorMsg m))
         \<and> ((\<forall>u. UploadRun u \<in> set (net_calls w) \<longrightarrow> failure (upload_run e u) \<noteq> None)
              \<longrightarrow> (\<exists>m. t = ErrorMsg m))"
  proof (cases rule: start_cases [of req e cfg])
    case (upload b name r rb)
    let ?u = "new_Upload cfg name rb (getMimeType name)"
    let ?t = "final_msg cfg name (failure (upload_run e ?u))"
    from upload(5) run have "sent w = map ProgressMsg (progress_values (sent w)) @ [?t]"
      and "UploadRun ?u \<in> set (net_calls w)"
      by (auto simp: progress_values_shape final_msg_terminal)
    moreover have "(\<exists>l. ?t = SuccessMsg l) \<or> (\<exists>m. ?t = ErrorMsg m)"
      by (simp add: final_msg_def split: option.split sum.split)
    moreover have "failure (upload_run e ?u) \<noteq> None \<Longrightarrow> \<exists>m. ?t = ErrorMsg m"
      by (auto simp: final_msg_def)
    ultimately show ?thesis
      by blast
  next
    case (other c' m k n)
    with run show ?thesis
      by auto
  qed
  with resp run show ?thesis
    by simp
qed

text \<open>C10 at a remote server that answers 404: status 200, the error in the body.\<close>

theorem authenticated_upload_answers_200_witness:
  "http_method (upload_request (both_fields (lit ''http://example.com/gone.mp4'') (lit ''a.mp4'')))
     = lit ''POST''
   \<and> pathname (upload_request (both_fields (lit ''http://example.com/gone.mp4'') (lit ''a.mp4'')))
     = lit ''/api/upload''
   \<and> pass (upload_request (both_fields (lit ''http://example.com/gone.mp4'') (lit ''a.mp4'')))
     = Some (ADMIN_PASSWORD example_config)
   \<and> status (serve example_config
        (remote_env not_found \<lparr>events = [], failure = None\<rparr>)
        (upload_request (both_fields (lit ''http://example.com/gone.mp4'') (lit ''a.mp4'')))) = 200
   \<and> content_type (serve example_config
        (remote_env not_found \<lparr>events = [], failure = None\<rparr>)
        (upload_request (both_fields (lit ''http://example.com/gone.mp4'') (lit ''a.mp4''))))
      = Some (lit ''application/x-ndjson'')
   \<and> payload (serve example_config
        (remote_env not_found \<lparr>events = [], failure = None\<rparr>)
        (upload_request (both_fields (lit ''http://example.com/gone.mp4'') (lit ''a.mp4''))))
      = Stream (Normal ())
          \<lparr>sent = [ErrorMsg (lit ''Cannot fetch remote url'')], closeRequested = True,
           close_calls = 1, net_calls = [Fetch (JStr (lit ''http://example.com/gone.mp4''))]\<rparr>"
proof -
  let ?req = "upload_request (both_fields (lit ''http://example.com/gone.mp4'') (lit ''a.mp4''))"
  have m: "http_method ?req = lit ''POST''"
    by (simp add: upload_request_def)
  have p: "pathname ?req = lit ''/api/upload''"
    by (simp add: upload_request_def)
  have a: "pass ?req = Some (ADMIN_PASSWORD example_config)"
    by (simp add: upload_request_def ADMIN_PASSWORD_def example_config_def)
  from authenticated_upload_answers_200 [OF m p a] m p a serve_not_found show ?thesis
    by blast
qed

end
